theory Spec2Isabelle
  imports Main "HOL-Library.AList"
begin

section \<open>The client view-state reducer (ViewingContext.tsx)\<close>

text \<open>
  The reducer works on JavaScript objects that are shared by reference: a \<open>Map\<close> from file
  ids to \<open>FileViewers\<close> objects, each holding a reference to a \<open>ViewerInfo[]\<close> array.
  \<open>new Map(state.fileViewers)\<close> copies the entries of the map, not the objects they point
  to, so the model keeps an explicit store with one table per kind of mutable object and a
  counter for the next fresh address of each kind. A \<open>Map\<close> is an association list in
  insertion order (\<open>set\<close> is \<open>AList.update\<close>, \<open>delete\<close> is \<open>AList.delete\<close>,
  \<open>get\<close> is \<open>map_of\<close>). \<open>new Date()\<close> is the clock value \<open>now\<close> handed to the reducer.
\<close>

type_synonym addr = nat
type_synonym date = nat

text \<open>\<open>ViewerInfo\<close>: the field \<open>id\<close> of the source is \<open>id_v\<close> here.\<close>

record ViewerInfo =
  id_v :: string
  name :: string
  email :: string
  socketId :: string
  joinedAt :: date

record FileViewers =
  fileId :: string
  viewers :: addr
  lastUpdated :: date

record heap =
  arrays :: "addr \<Rightarrow> ViewerInfo list"
  arrays_next :: addr
  objects :: "addr \<Rightarrow> FileViewers"
  objects_next :: addr
  maps :: "addr \<Rightarrow> (string \<times> addr) list"
  maps_next :: addr

record ViewingState =
  fileViewers :: addr
  currentlyViewing :: "string option"

text \<open>The payload of \<open>SET_FILE_VIEWERS\<close> carries a reference to the viewers array.\<close>

datatype ViewingAction =
    SET_FILE_VIEWERS string addr
  | USER_STARTED_VIEWING string ViewerInfo
  | USER_STOPPED_VIEWING string string
  | SET_CURRENTLY_VIEWING "string option"
  | CLEAR_FILE_VIEWERS string

subsection \<open>Store operations\<close>

definition new_array :: "ViewerInfo list \<Rightarrow> heap \<Rightarrow> addr \<times> heap" where
  "new_array xs h =
     (arrays_next h, h\<lparr>arrays := (arrays h)(arrays_next h := xs), arrays_next := Suc (arrays_next h)\<rparr>)"

definition new_object :: "FileViewers \<Rightarrow> heap \<Rightarrow> addr \<times> heap" where
  "new_object obj h =
     (objects_next h, h\<lparr>objects := (objects h)(objects_next h := obj), objects_next := Suc (objects_next h)\<rparr>)"

text \<open>\<open>new Map(src)\<close>: a fresh map holding the entries of \<open>src\<close>.\<close>

definition new_Map :: "addr \<Rightarrow> heap \<Rightarrow> addr \<times> heap" where
  "new_Map src h =
     (maps_next h, h\<lparr>maps := (maps h)(maps_next h := maps h src), maps_next := Suc (maps_next h)\<rparr>)"

definition Map_set :: "addr \<Rightarrow> string \<Rightarrow> addr \<Rightarrow> heap \<Rightarrow> heap" where
  "Map_set m k v h = h\<lparr>maps := (maps h)(m := AList.update k v (maps h m))\<rparr>"

definition Map_delete :: "addr \<Rightarrow> string \<Rightarrow> heap \<Rightarrow> heap" where
  "Map_delete m k h = h\<lparr>maps := (maps h)(m := AList.delete k (maps h m))\<rparr>"

definition Map_get :: "addr \<Rightarrow> string \<Rightarrow> heap \<Rightarrow> addr option" where
  "Map_get m k h = map_of (maps h m) k"

text \<open>\<open>arr.push(v)\<close> and \<open>arr[i] = v\<close> for an index inside the array.\<close>

definition array_push :: "addr \<Rightarrow> ViewerInfo \<Rightarrow> heap \<Rightarrow> heap" where
  "array_push a v h = h\<lparr>arrays := (arrays h)(a := arrays h a @ [v])\<rparr>"

definition array_set :: "addr \<Rightarrow> nat \<Rightarrow> ViewerInfo \<Rightarrow> heap \<Rightarrow> heap" where
  "array_set a i v h = h\<lparr>arrays := (arrays h)(a := (arrays h a)[i := v])\<rparr>"

definition set_viewers :: "addr \<Rightarrow> addr \<Rightarrow> heap \<Rightarrow> heap" where
  "set_viewers obj arr h = h\<lparr>objects := (objects h)(obj := (objects h obj)\<lparr>viewers := arr\<rparr>)\<rparr>"

definition set_lastUpdated :: "addr \<Rightarrow> date \<Rightarrow> heap \<Rightarrow> heap" where
  "set_lastUpdated obj d h = h\<lparr>objects := (objects h)(obj := (objects h obj)\<lparr>lastUpdated := d\<rparr>)\<rparr>"

text \<open>\<open>Array.prototype.findIndex\<close>: the index of the first element that satisfies the
  predicate, or \<open>-1\<close>.\<close>

fun findIndex :: "('a \<Rightarrow> bool) \<Rightarrow> 'a list \<Rightarrow> int" where
  "findIndex p [] = -1"
| "findIndex p (x # xs) =
     (if p x then 0 else (let i = findIndex p xs in if i = -1 then -1 else i + 1))"

subsection \<open>viewingReducer\<close>

fun viewingReducer :: "date \<Rightarrow> heap \<Rightarrow> ViewingState \<Rightarrow> ViewingAction \<Rightarrow> heap \<times> ViewingState" where
  "viewingReducer now h state (SET_FILE_VIEWERS fid vs) =
     (let (newFileViewers, h1) = new_Map (fileViewers state) h;
          (obj, h2) = new_object \<lparr>fileId = fid, viewers = vs, lastUpdated = now\<rparr> h1;
          h3 = Map_set newFileViewers fid obj h2
      in (h3, state\<lparr>fileViewers := newFileViewers\<rparr>))"
| "viewingReducer now h state (USER_STARTED_VIEWING fid viewer) =
     (let (newFileViewers, h1) = new_Map (fileViewers state) h;
          (currentViewers, h2) =
             (case Map_get newFileViewers fid h1 of
                Some obj \<Rightarrow> (obj, h1)
              | None \<Rightarrow>
                  (let (arr, ha) = new_array [] h1
                   in new_object \<lparr>fileId = fid, viewers = arr, lastUpdated = now\<rparr> ha));
          arr = viewers (objects h2 currentViewers);
          existingViewerIndex = findIndex (\<lambda>v. id_v v = id_v viewer) (arrays h2 arr);
          h3 = (if existingViewerIndex = -1 then array_push arr viewer h2
                else array_set arr (nat existingViewerIndex) viewer h2);
          h4 = set_lastUpdated currentViewers now h3;
          h5 = Map_set newFileViewers fid currentViewers h4
      in (h5, state\<lparr>fileViewers := newFileViewers\<rparr>))"
| "viewingReducer now h state (USER_STOPPED_VIEWING fid userId) =
     (let (newFileViewers, h1) = new_Map (fileViewers state) h
      in case Map_get newFileViewers fid h1 of
           None \<Rightarrow> (h1, state\<lparr>fileViewers := newFileViewers\<rparr>)
         | Some currentViewers \<Rightarrow>
             (let (arr, h2) =
                    new_array (filter (\<lambda>v. id_v v \<noteq> userId)
                                 (arrays h1 (viewers (objects h1 currentViewers)))) h1;
                  h3 = set_viewers currentViewers arr h2;
                  h4 = set_lastUpdated currentViewers now h3;
                  h5 = (if length (arrays h4 (viewers (objects h4 currentViewers))) = 0
                        then Map_delete newFileViewers fid h4
                        else Map_set newFileViewers fid currentViewers h4)
              in (h5, state\<lparr>fileViewers := newFileViewers\<rparr>)))"
| "viewingReducer now h state (SET_CURRENTLY_VIEWING p) =
     (h, state\<lparr>currentlyViewing := p\<rparr>)"
| "viewingReducer now h state (CLEAR_FILE_VIEWERS fid) =
     (let (newFileViewers, h1) = new_Map (fileViewers state) h;
          h2 = Map_delete newFileViewers fid h1
      in (h2, state\<lparr>fileViewers := newFileViewers\<rparr>))"

text \<open>What a consumer reads from a state: the cached record of a file, with the contents
  of its viewers array, and the viewer list alone.\<close>

definition snapshot :: "heap \<Rightarrow> ViewingState \<Rightarrow> string \<Rightarrow> (string \<times> ViewerInfo list \<times> date) option" where
  "snapshot h s f =
     (case Map_get (fileViewers s) f h of
        None \<Rightarrow> None
      | Some a \<Rightarrow> Some (fileId (objects h a), arrays h (viewers (objects h a)), lastUpdated (objects h a)))"

definition viewers_of :: "heap \<Rightarrow> ViewingState \<Rightarrow> string \<Rightarrow> ViewerInfo list option" where
  "viewers_of h s f =
     (case Map_get (fileViewers s) f h of
        None \<Rightarrow> None
      | Some a \<Rightarrow> Some (arrays h (viewers (objects h a))))"

text \<open>The invariant of the viewer sets: no identity id twice in the list of a cached file.\<close>

definition unique_ids :: "ViewerInfo list \<Rightarrow> bool" where
  "unique_ids vs = distinct (map id_v vs)"

definition unique_viewers :: "heap \<Rightarrow> ViewingState \<Rightarrow> bool" where
  "unique_viewers h s =
     list_all (\<lambda>(f, a). unique_ids (arrays h (viewers (objects h a)))) (maps h (fileViewers s))"

text \<open>Every reference reachable from the state points below the allocation counters, and
  the map has one entry per key.\<close>

definition wf_state :: "heap \<Rightarrow> ViewingState \<Rightarrow> bool" where
  "wf_state h s =
     (fileViewers s < maps_next h \<and>
      distinct (map fst (maps h (fileViewers s))) \<and>
      list_all (\<lambda>(f, a). a < objects_next h \<and> viewers (objects h a) < arrays_next h)
        (maps h (fileViewers s)))"

text \<open>\<open>initialState\<close>: an empty map at address 0.\<close>

definition initialHeap :: heap where
  "initialHeap =
     \<lparr>arrays = (\<lambda>_. []), arrays_next = 0,
      objects = (\<lambda>_. \<lparr>fileId = [], viewers = 0, lastUpdated = 0\<rparr>), objects_next = 0,
      maps = (\<lambda>_. []), maps_next = 1\<rparr>"

definition initialState :: ViewingState where
  "initialState = \<lparr>fileViewers = 0, currentlyViewing = None\<rparr>"

text \<open>Replacing, in place, the entry that has the identity id of \<open>w\<close>.\<close>

definition replace_by_id :: "ViewerInfo \<Rightarrow> ViewerInfo list \<Rightarrow> ViewerInfo list" where
  "replace_by_id w vs = map (\<lambda>x. if id_v x = id_v w then w else x) vs"

text \<open>What \<open>USER_STARTED_VIEWING\<close> does to the array it works on.\<close>

definition insert_or_replace :: "ViewerInfo \<Rightarrow> ViewerInfo list \<Rightarrow> ViewerInfo list" where
  "insert_or_replace w vs =
     (if findIndex (\<lambda>v. id_v v = id_v w) vs = - 1 then vs @ [w]
      else vs[nat (findIndex (\<lambda>v. id_v v = id_v w) vs) := w])"

text \<open>The condition on an action under which the invariant is kept: the viewers array of a
  \<open>SET_FILE_VIEWERS\<close> payload has no identity id twice.\<close>

definition payload_unique :: "heap \<Rightarrow> ViewingAction \<Rightarrow> bool" where
  "payload_unique h a = (case a of SET_FILE_VIEWERS fid vs \<Rightarrow> unique_ids (arrays h vs) | _ \<Rightarrow> True)"

text \<open>The viewers array of a \<open>SET_FILE_VIEWERS\<close> payload is an allocated array.\<close>

definition payload_allocated :: "heap \<Rightarrow> ViewingAction \<Rightarrow> bool" where
  "payload_allocated h a = (case a of SET_FILE_VIEWERS fid vs \<Rightarrow> vs < arrays_next h | _ \<Rightarrow> True)"

subsection \<open>Example data\<close>

definition alice :: ViewerInfo where
  "alice = \<lparr>id_v = ''u1'', name = ''Alice'', email = ''alice@example.com'', socketId = ''s1'', joinedAt = 1\<rparr>"

definition alice_again :: ViewerInfo where
  "alice_again = \<lparr>id_v = ''u1'', name = ''Alice'', email = ''alice@example.com'', socketId = ''s7'', joinedAt = 5\<rparr>"

definition bob :: ViewerInfo where
  "bob = \<lparr>id_v = ''u2'', name = ''Bob'', email = ''bob@example.com'', socketId = ''s2'', joinedAt = 2\<rparr>"

text \<open>A store in which the array of an incoming payload, \<open>[alice]\<close>, sits at address 0, and
  the state the reducer makes of it at time 1: file \<open>f\<close> is cached with the viewer alice.\<close>

definition payload_heap :: heap where
  "payload_heap = snd (new_array [alice] initialHeap)"

definition cached_heap :: heap where
  "cached_heap = fst (viewingReducer 1 payload_heap initialState (SET_FILE_VIEWERS ''f'' 0))"

definition cached_state :: ViewingState where
  "cached_state = snd (viewingReducer 1 payload_heap initialState (SET_FILE_VIEWERS ''f'' 0))"

text \<open>A store in which the payload array names alice twice.\<close>

definition duplicate_heap :: heap where
  "duplicate_heap = snd (new_array [alice, alice] initialHeap)"

section \<open>The socket service (services/socketService.ts)\<close>

text \<open>
  The service object, the sockets that \<open>io\<close> hands out and the timers of \<open>setTimeout\<close> make
  up the client's world. A socket is an object of the socket.io client library; the model
  keeps of it what the service reads and writes: the \<open>connected\<close> flag, the handlers
  registered with \<open>socket.on\<close> in registration order, the messages given to \<open>socket.emit\<close>,
  and whether \<open>socket.disconnect()\<close> closed it. Everything the service prints or shows
  (console output, toasts) and every call of a listener callback is appended to a trace.

  A listener callback is known by its identity (a number); whether a call of it throws is
  given by the parameter \<open>thr\<close>. Callbacks are taken not to call back into the service.
  Payloads are \<open>any\<close> in the source: the object \<open>{fileId}\<close>, a disconnect reason, no
  value, or any other value by its JSON text. Toast and console texts that the source builds
  from fields of a payload are kept by their fixed part.
\<close>

type_synonym callback = nat

datatype payload = Undefined | FileIdObj string | Reason string | Json string

datatype effect =
    Called callback payload
  | Listener_error nat string
  | Console_error string
  | Console_warn string
  | Console_log string
  | Toast_success string
  | Toast_error string
  | Toast_info string

text \<open>The functions handed to \<open>socket.on\<close>, one constructor for each in the source.\<close>

datatype handler =
    H_connect
  | H_disconnect
  | H_connect_error
  | H_reconnect
  | H_reconnect_failed
  | H_file_viewers_updated
  | H_user_started_viewing_file
  | H_user_stopped_viewing_file
  | H_new_file_uploaded
  | H_user_started_editing
  | H_user_stopped_editing
  | H_file_being_edited
  | H_resource_shared_with_you
  | H_permission_updated
  | H_notification
  | H_onlineUsersUpdated
  | H_connected

record Socket =
  connected :: bool
  handlers :: "(string \<times> handler) list"
  emitted :: "(string \<times> payload) list"
  closed :: bool
  auth_token :: string

record SocketService =
  socket :: "addr option"
  isConnected :: bool
  listeners :: "(string \<times> callback list) list"
  connectionAttempts :: nat
  isConnecting :: bool

record World =
  service :: SocketService
  sockets :: "addr \<Rightarrow> Socket"
  sockets_next :: addr
  timers :: "string list"
  trace :: "effect list"

definition maxReconnectAttempts :: nat where
  "maxReconnectAttempts = 5"

definition reconnectDelay :: nat where
  "reconnectDelay = 1000"

subsection \<open>The library side\<close>

text \<open>\<open>io(url, opts)\<close> makes a new socket, not yet connected, and starts its session.\<close>

definition io :: "string \<Rightarrow> World \<Rightarrow> addr \<times> World" where
  "io token w =
     (sockets_next w,
      w\<lparr>sockets := (sockets w)(sockets_next w :=
            \<lparr>connected = False, handlers = [], emitted = [], closed = False, auth_token = token\<rparr>),
        sockets_next := Suc (sockets_next w)\<rparr>)"

definition socket_on :: "addr \<Rightarrow> string \<Rightarrow> handler \<Rightarrow> World \<Rightarrow> World" where
  "socket_on a ev h w =
     w\<lparr>sockets := (sockets w)(a := (sockets w a)\<lparr>handlers := handlers (sockets w a) @ [(ev, h)]\<rparr>)\<rparr>"

definition socket_emit :: "addr \<Rightarrow> string \<Rightarrow> payload \<Rightarrow> World \<Rightarrow> World" where
  "socket_emit a ev d w =
     w\<lparr>sockets := (sockets w)(a := (sockets w a)\<lparr>emitted := emitted (sockets w a) @ [(ev, d)]\<rparr>)\<rparr>"

definition socket_removeAllListeners :: "addr \<Rightarrow> World \<Rightarrow> World" where
  "socket_removeAllListeners a w =
     w\<lparr>sockets := (sockets w)(a := (sockets w a)\<lparr>handlers := []\<rparr>)\<rparr>"

text \<open>\<open>socket.disconnect()\<close> closes the session for good.\<close>

definition socket_disconnect :: "addr \<Rightarrow> World \<Rightarrow> World" where
  "socket_disconnect a w =
     w\<lparr>sockets := (sockets w)(a := (sockets w a)\<lparr>connected := False, closed := True\<rparr>)\<rparr>"

definition handlers_for :: "string \<Rightarrow> Socket \<Rightarrow> handler list" where
  "handlers_for ev s = map snd (filter (\<lambda>(e, h). e = ev) (handlers s))"

text \<open>\<open>this.socket?.connected\<close>.\<close>

definition socket_connected :: "World \<Rightarrow> bool" where
  "socket_connected w =
     (case socket (service w) of None \<Rightarrow> False | Some a \<Rightarrow> connected (sockets w a))"

definition log :: "effect \<Rightarrow> World \<Rightarrow> World" where
  "log e w = w\<lparr>trace := trace w @ [e]\<rparr>"

subsection \<open>The listener registry: on, off, triggerEvent\<close>

definition on :: "string \<Rightarrow> callback \<Rightarrow> SocketService \<Rightarrow> SocketService" where
  "on event cb svc =
     (let ls = (if map_of (listeners svc) event = None
                then AList.update event [] (listeners svc) else listeners svc)
      in svc\<lparr>listeners :=
               AList.update event ((case map_of ls event of None \<Rightarrow> [] | Some cbs \<Rightarrow> cbs) @ [cb]) ls\<rparr>)"




text \<open>The body of \<open>callbacks.forEach\<close> in \<open>triggerEvent\<close>: each callback is called; one that
  throws is caught and reported with its position (counted from 1).\<close>

fun forEach_callbacks :: "(callback \<Rightarrow> payload \<Rightarrow> bool) \<Rightarrow> string \<Rightarrow> payload \<Rightarrow> callback list \<Rightarrow> nat \<Rightarrow> effect list" where
  "forEach_callbacks thr event d [] index = []"
| "forEach_callbacks thr event d (cb # cbs) index =
     Called cb d # (if thr cb d then [Listener_error (index + 1) event] else [])
       @ forEach_callbacks thr event d cbs (index + 1)"

definition triggerEvent :: "(callback \<Rightarrow> payload \<Rightarrow> bool) \<Rightarrow> string \<Rightarrow> payload \<Rightarrow> World \<Rightarrow> World" where
  "triggerEvent thr event d w =
     (case map_of (listeners (service w)) event of
        None \<Rightarrow> log (Console_warn (''No listeners found for event '' @ event)) w
      | Some callbacks \<Rightarrow>
          if length callbacks > 0
          then w\<lparr>trace := trace w @ forEach_callbacks thr event d callbacks 0\<rparr>
          else log (Console_warn (''No listeners found for event '' @ event)) w)"

subsection \<open>Outbound actions\<close>

definition startViewingFile :: "string \<Rightarrow> World \<Rightarrow> World" where
  "startViewingFile fid w =
     (if socket_connected w
      then (case socket (service w) of None \<Rightarrow> w
            | Some a \<Rightarrow> socket_emit a ''start-viewing-file'' (FileIdObj fid) w)
      else log (Console_warn ''Cannot start viewing file - socket not connected'') w)"

definition stopViewingFile :: "string \<Rightarrow> World \<Rightarrow> World" where
  "stopViewingFile fid w =
     (if socket_connected w
      then (case socket (service w) of None \<Rightarrow> w
            | Some a \<Rightarrow> socket_emit a ''stop-viewing-file'' (FileIdObj fid) w)
      else log (Console_warn ''Cannot stop viewing file - socket not connected'') w)"

definition emit :: "string \<Rightarrow> payload \<Rightarrow> World \<Rightarrow> World" where
  "emit event d w =
     (if socket_connected w
      then (case socket (service w) of None \<Rightarrow> w | Some a \<Rightarrow> socket_emit a event d w)
      else log (Console_warn (''Socket not connected, cannot emit event: '' @ event)) w)"

definition getOnlineUsers :: "World \<Rightarrow> World" where
  "getOnlineUsers w =
     (if socket_connected w
      then (case socket (service w) of None \<Rightarrow> w
            | Some a \<Rightarrow> socket_emit a ''get-online-users'' Undefined
                          (log (Console_log ''Emitting get-online-users event'') w))
      else log (Console_warn ''Cannot get online users - socket not connected'') w)"

subsection \<open>Transport handlers\<close>

text \<open>The registrations of \<open>setupEventListeners\<close>, in the order of the source.\<close>

definition wire_handlers :: "(string \<times> handler) list" where
  "wire_handlers =
     [(''file-viewers-updated'', H_file_viewers_updated),
      (''user-started-viewing-file'', H_user_started_viewing_file),
      (''user-stopped-viewing-file'', H_user_stopped_viewing_file),
      (''new-file-uploaded'', H_new_file_uploaded),
      (''user-started-editing'', H_user_started_editing),
      (''user-stopped-editing'', H_user_stopped_editing),
      (''file-being-edited'', H_file_being_edited),
      (''resource-shared-with-you'', H_resource_shared_with_you),
      (''permission-updated'', H_permission_updated),
      (''notification'', H_notification),
      (''onlineUsersUpdated'', H_onlineUsersUpdated),
      (''connected'', H_connected)]"

definition setupEventListeners :: "World \<Rightarrow> World" where
  "setupEventListeners w =
     (case socket (service w) of
        None \<Rightarrow> w
      | Some a \<Rightarrow> fold (\<lambda>(ev, h). socket_on a ev h) wire_handlers w)"

definition reregisterListeners :: "World \<Rightarrow> World" where
  "reregisterListeners w =
     (case socket (service w) of None \<Rightarrow> w | Some a \<Rightarrow> setupEventListeners w)"

text \<open>What each handler does when the socket calls it with a payload.\<close>

fun run_handler :: "(callback \<Rightarrow> payload \<Rightarrow> bool) \<Rightarrow> handler \<Rightarrow> payload \<Rightarrow> World \<Rightarrow> World" where
  "run_handler thr H_connect d w =
     reregisterListeners
       (log (Toast_success ''Connected to real-time server'')
          (w\<lparr>service := (service w)\<lparr>isConnected := True, isConnecting := False,
                                     connectionAttempts := 0\<rparr>\<rparr>))"
| "run_handler thr H_disconnect d w =
     (let w1 = w\<lparr>service := (service w)\<lparr>isConnected := False, isConnecting := False\<rparr>\<rparr>
      in if d \<noteq> Reason ''io client disconnect''
         then log (Toast_error ''Disconnected from real-time server'') w1 else w1)"
| "run_handler thr H_connect_error d w =
     (let w1 = log (Console_error ''Socket connection error:'') w;
          w2 = w1\<lparr>service := (service w1)\<lparr>isConnecting := False,
                      connectionAttempts := connectionAttempts (service w1) + 1\<rparr>\<rparr>
      in if connectionAttempts (service w2) \<ge> maxReconnectAttempts
         then log (Toast_error ''Failed to connect to real-time server'') w2 else w2)"
| "run_handler thr H_reconnect d w = log (Toast_success ''Reconnected to real-time server'') w"
| "run_handler thr H_reconnect_failed d w =
     (let w1 = log (Console_error ''Failed to reconnect to socket server'') w;
          w2 = log (Toast_error ''Failed to reconnect to real-time server'') w1
      in w2\<lparr>service := (service w2)\<lparr>isConnecting := False\<rparr>\<rparr>)"
| "run_handler thr H_file_viewers_updated d w = triggerEvent thr ''file-viewers-updated'' d w"
| "run_handler thr H_user_started_viewing_file d w = triggerEvent thr ''user-started-viewing-file'' d w"
| "run_handler thr H_user_stopped_viewing_file d w = triggerEvent thr ''user-stopped-viewing-file'' d w"
| "run_handler thr H_new_file_uploaded d w =
     triggerEvent thr ''fileListUpdated'' Undefined (log (Toast_success ''New file uploaded: '') w)"
| "run_handler thr H_user_started_editing d w =
     triggerEvent thr ''userStartedEditing'' d (log (Toast_info '' started editing a file'') w)"
| "run_handler thr H_user_stopped_editing d w = triggerEvent thr ''userStoppedEditing'' d w"
| "run_handler thr H_file_being_edited d w = log (Toast_info ''File is being edited by '') w"
| "run_handler thr H_resource_shared_with_you d w =
     triggerEvent thr ''resourceShared'' d (log (Toast_success '' shared a resource with you'') w)"
| "run_handler thr H_permission_updated d w =
     triggerEvent thr ''permissionUpdated'' d (log (Toast_info ''Your permission was updated by '') w)"
| "run_handler thr H_notification d w =
     triggerEvent thr ''notification'' d (log (Toast_info ''notification'') w)"
| "run_handler thr H_onlineUsersUpdated d w =
     triggerEvent thr ''onlineUsersUpdated'' d (log (Console_log ''Received online users update:'') w)"
| "run_handler thr H_connected d w =
     getOnlineUsers (log (Console_log ''Socket connected successfully, requesting online users'') w)"

text \<open>The socket calls, in registration order, the handlers that were registered for the
  event when it arrived.\<close>

definition fire :: "(callback \<Rightarrow> payload \<Rightarrow> bool) \<Rightarrow> addr \<Rightarrow> string \<Rightarrow> payload \<Rightarrow> World \<Rightarrow> World" where
  "fire thr a ev d w = fold (\<lambda>h. run_handler thr h d) (handlers_for ev (sockets w a)) w"

text \<open>What the transport can report on a socket: the lifecycle events of the library and
  a message from the server. The library sets \<open>connected\<close> before it reports \<open>connect\<close> or
  \<open>disconnect\<close>; a closed socket reports nothing.\<close>

datatype transport_event =
    T_connect
  | T_disconnect string
  | T_connect_error
  | T_reconnect
  | T_reconnect_failed
  | T_message string payload

definition set_connected :: "addr \<Rightarrow> bool \<Rightarrow> World \<Rightarrow> World" where
  "set_connected a b w = w\<lparr>sockets := (sockets w)(a := (sockets w a)\<lparr>connected := b\<rparr>)\<rparr>"

fun deliver :: "(callback \<Rightarrow> payload \<Rightarrow> bool) \<Rightarrow> addr \<Rightarrow> transport_event \<Rightarrow> World \<Rightarrow> World" where
  "deliver thr a T_connect w = fire thr a ''connect'' Undefined (set_connected a True w)"
| "deliver thr a (T_disconnect r) w = fire thr a ''disconnect'' (Reason r) (set_connected a False w)"
| "deliver thr a T_connect_error w = fire thr a ''connect_error'' Undefined w"
| "deliver thr a T_reconnect w = fire thr a ''reconnect'' Undefined w"
| "deliver thr a T_reconnect_failed w = fire thr a ''reconnect_failed'' Undefined w"
| "deliver thr a (T_message ev d) w = fire thr a ev d w"

definition transport :: "(callback \<Rightarrow> payload \<Rightarrow> bool) \<Rightarrow> addr \<Rightarrow> transport_event \<Rightarrow> World \<Rightarrow> World" where
  "transport thr a e w = (if closed (sockets w a) then w else deliver thr a e w)"

subsection \<open>connect, disconnect, forceReconnect\<close>

text \<open>\<open>io_throws\<close> says whether the call of \<open>io\<close> inside the \<open>try\<close> block throws.\<close>

definition lifecycle_handlers :: "(string \<times> handler) list" where
  "lifecycle_handlers =
     [(''connect'', H_connect), (''disconnect'', H_disconnect), (''connect_error'', H_connect_error),
      (''reconnect'', H_reconnect), (''reconnect_failed'', H_reconnect_failed)]"

definition connect :: "bool \<Rightarrow> string \<Rightarrow> World \<Rightarrow> World" where
  "connect io_throws token w =
     (if isConnecting (service w) \<or> socket_connected w then w
      else
        let w1 = w\<lparr>service := (service w)\<lparr>isConnecting := True\<rparr>\<rparr>
        in if io_throws
           then log (Toast_error ''Failed to initialize real-time connection'')
                  ((log (Console_error ''Error creating socket connection:'') w1)
                     \<lparr>service := (service w1)\<lparr>isConnecting := False\<rparr>\<rparr>)
           else
             let (a, w2) = io token w1;
                 w3 = w2\<lparr>service := (service w2)\<lparr>socket := Some a\<rparr>\<rparr>;
                 w4 = fold (\<lambda>(ev, h). socket_on a ev h) lifecycle_handlers w3
             in setupEventListeners w4)"

definition disconnect :: "World \<Rightarrow> World" where
  "disconnect w =
     (case socket (service w) of
        None \<Rightarrow> w
      | Some a \<Rightarrow>
          (let w1 = w\<lparr>service := (service w)\<lparr>isConnected := False, isConnecting := False\<rparr>\<rparr>;
               w2 = socket_removeAllListeners a w1;
               w3 = socket_disconnect a w2;
               w4 = w3\<lparr>service := (service w3)\<lparr>socket := None\<rparr>\<rparr>
           in w4\<lparr>service := (service w4)\<lparr>listeners := []\<rparr>\<rparr>))"

definition shouldReconnect :: "World \<Rightarrow> bool" where
  "shouldReconnect w =
     (\<not> isConnected (service w) \<and> \<not> isConnecting (service w) \<and>
      connectionAttempts (service w) < maxReconnectAttempts)"

text \<open>\<open>forceReconnect\<close> disconnects and leaves the call of \<open>connect\<close> to a timer; the timer
  runs it when it fires.\<close>

definition forceReconnect :: "string \<Rightarrow> World \<Rightarrow> World" where
  "forceReconnect token w = (let w1 = disconnect w in w1\<lparr>timers := timers w1 @ [token]\<rparr>)"

definition timer_fires :: "bool \<Rightarrow> World \<Rightarrow> World" where
  "timer_fires io_throws w =
     (case timers w of
        [] \<Rightarrow> w
      | token # rest \<Rightarrow> connect io_throws token (w\<lparr>timers := rest\<rparr>))"

text \<open>The getter \<open>connected\<close> of the service.\<close>

definition connected_get :: "World \<Rightarrow> bool" where
  "connected_get w = (isConnected (service w) \<and> socket_connected w)"

text \<open>The module's singleton before any call.\<close>

definition initialWorld :: World where
  "initialWorld =
     \<lparr>service = \<lparr>socket = None, isConnected = False, listeners = [], connectionAttempts = 0,
                  isConnecting = False\<rparr>,
      sockets = (\<lambda>_. \<lparr>connected = False, handlers = [], emitted = [], closed = True, auth_token = []\<rparr>),
      sockets_next = 0, timers = [], trace = []\<rparr>"


subsection \<open>The cleanup of the ViewingProvider effect\<close>

text \<open>The cleanup function of the first effect of \<open>ViewingProvider\<close> calls the service and
  dispatches nothing to the reducer: the result is the list of dispatched actions (empty)
  and the world after the calls. \<open>dispatch_all\<close> is the reducer state after a list of
  dispatched actions.\<close>

definition ViewingProvider_cleanup :: "ViewingState \<Rightarrow> World \<Rightarrow> ViewingAction list \<times> World" where
  "ViewingProvider_cleanup state w =
     ([], disconnect
            (case currentlyViewing state of
               None \<Rightarrow> w
             | Some f \<Rightarrow> if f \<noteq> [] then stopViewingFile f w else w))"

fun dispatch_all :: "date \<Rightarrow> heap \<Rightarrow> ViewingState \<Rightarrow> ViewingAction list \<Rightarrow> heap \<times> ViewingState" where
  "dispatch_all now h s [] = (h, s)"
| "dispatch_all now h s (a # as) =
     (case viewingReducer now h s a of (h', s') \<Rightarrow> dispatch_all now h' s' as)"

subsection \<open>Calls, runs and what is read off a trace\<close>

text \<open>The callbacks registered for an event class (none when the class has no entry), the
  callback calls and the reported listener failures of a trace.\<close>

definition registered :: "SocketService \<Rightarrow> string \<Rightarrow> callback list" where
  "registered svc event = (case map_of (listeners svc) event of None \<Rightarrow> [] | Some cbs \<Rightarrow> cbs)"

fun called :: "effect list \<Rightarrow> (callback \<times> payload) list" where
  "called [] = []"
| "called (Called cb d # es) = (cb, d) # called es"
| "called (e # es) = called es"

fun listener_errors :: "effect list \<Rightarrow> (nat \<times> string) list" where
  "listener_errors [] = []"
| "listener_errors (Listener_error i ev # es) = (i, ev) # listener_errors es"
| "listener_errors (e # es) = listener_errors es"








text \<open>A never-throwing behaviour of the callbacks, and one where callback 2 throws.\<close>

definition never_throws :: "callback \<Rightarrow> payload \<Rightarrow> bool" where
  "never_throws cb d = False"





subsection \<open>Invariants used in the proofs\<close>



subsection \<open>Example worlds\<close>



definition early_listener :: World where
  "early_listener = initialWorld\<lparr>service := on ''e'' 7 (service initialWorld)\<rparr>"

definition connected_world :: World where
  "connected_world = transport never_throws 0 T_connect (connect False ''t'' initialWorld)"

definition subscribed_world :: World where
  "subscribed_world = connected_world\<lparr>service := on ''e'' 7 (service connected_world)\<rparr>"

section \<open>Properties of the reducer\<close>

subsection \<open>findIndex and the viewer lists\<close>

lemma findIndex_ge: "- 1 \<le> findIndex p xs"
  by (induction xs) (auto simp: Let_def)

lemma findIndex_absent: "findIndex p xs = - 1 \<longleftrightarrow> (\<forall>x \<in> set xs. \<not> p x)"
proof (induction xs)
  case Nil
  show ?case by simp
next
  case (Cons x xs)
  have "- 1 \<le> findIndex p xs" by (rule findIndex_ge)
  with Cons show ?case by (auto simp: Let_def)
qed

lemma replace_first:
  "unique_ids vs \<Longrightarrow> findIndex (\<lambda>v. id_v v = id_v w) vs \<noteq> - 1 \<Longrightarrow>
   vs[nat (findIndex (\<lambda>v. id_v v = id_v w) vs) := w] = replace_by_id w vs"
proof (induction vs)
  case Nil
  then show ?case by simp
next
  case (Cons x xs)
  have ge: "- 1 \<le> findIndex (\<lambda>v. id_v v = id_v w) xs" by (rule findIndex_ge)
  show ?case
  proof (cases "id_v x = id_v w")
    case True
    with Cons.prems(1) have "\<forall>y \<in> set xs. id_v y \<noteq> id_v w"
      by (auto simp: unique_ids_def image_iff)
    then have "map (\<lambda>x. if id_v x = id_v w then w else x) xs = xs"
      by (induction xs) auto
    with True show ?thesis by (simp add: replace_by_id_def)
  next
    case False
    with Cons.prems have ne: "findIndex (\<lambda>v. id_v v = id_v w) xs \<noteq> - 1"
      by (auto simp: Let_def split: if_splits)
    with ge have pos: "0 \<le> findIndex (\<lambda>v. id_v v = id_v w) xs" by simp
    from Cons.prems(1) have "unique_ids xs" by (simp add: unique_ids_def)
    from Cons.IH [OF this ne] False ne pos show ?thesis
      by (simp add: Let_def nat_add_distrib replace_by_id_def)
  qed
qed

lemma unique_ids_replace: "unique_ids vs \<Longrightarrow> unique_ids (replace_by_id w vs)"
proof -
  have "map id_v (replace_by_id w vs) = map id_v vs"
    by (induction vs) (auto simp: replace_by_id_def)
  then show "unique_ids vs \<Longrightarrow> unique_ids (replace_by_id w vs)" by (simp add: unique_ids_def)
qed

lemma unique_ids_push:
  "unique_ids vs \<Longrightarrow> findIndex (\<lambda>v. id_v v = id_v w) vs = - 1 \<Longrightarrow> unique_ids (vs @ [w])"
  by (auto simp: unique_ids_def findIndex_absent)

lemma unique_ids_filter: "unique_ids vs \<Longrightarrow> unique_ids (filter p vs)"
  by (simp add: unique_ids_def distinct_map_filter)

lemma unique_ids_insert_or_replace: "unique_ids vs \<Longrightarrow> unique_ids (insert_or_replace w vs)"
  by (simp add: insert_or_replace_def unique_ids_push replace_first unique_ids_replace)

lemma set_update_subset: "set (AList.update k v al) \<subseteq> insert (k, v) (set al)"
  by (induction al) auto

lemma initial_wf: "wf_state initialHeap initialState"
  by (simp add: wf_state_def initialHeap_def initialState_def)

lemma cached_wf: "wf_state cached_heap cached_state"
  by (simp add: wf_state_def cached_heap_def cached_state_def payload_heap_def initialHeap_def
      initialState_def new_array_def new_Map_def new_object_def Map_set_def)

lemma cached_snapshot: "snapshot cached_heap cached_state ''f'' = Some (''f'', [alice], 1)"
  by (simp add: snapshot_def cached_heap_def cached_state_def payload_heap_def initialHeap_def
      initialState_def new_array_def new_Map_def new_object_def Map_set_def Map_get_def)

lemma cached_unique: "unique_viewers cached_heap cached_state"
  by (simp add: unique_viewers_def unique_ids_def cached_heap_def cached_state_def payload_heap_def
      initialHeap_def initialState_def new_array_def new_Map_def new_object_def Map_set_def)

text \<open>
  Claim C1 says that the reducer never changes the previous state in place: after any
  action the \<open>FileViewers\<close> records of the previous state read as before. The code
  copies the map only. At the state that caches file \<open>f\<close> with the viewer alice (record
  written at time 1), \<open>USER_STARTED_VIEWING\<close> for bob pushes onto the array of the previous
  state's record and overwrites its \<open>lastUpdated\<close>; \<open>USER_STOPPED_VIEWING\<close> for alice
  replaces the \<open>viewers\<close> field of that record. Read through the previous state, the
  record of \<open>f\<close> has changed in both cases.
\<close>

theorem viewingReducer_mutates_previous_state:
  "snapshot cached_heap cached_state ''f'' = Some (''f'', [alice], 1) \<and>
   snapshot (fst (viewingReducer 2 cached_heap cached_state (USER_STARTED_VIEWING ''f'' bob)))
     cached_state ''f'' = Some (''f'', [alice, bob], 2) \<and>
   snapshot (fst (viewingReducer 3 cached_heap cached_state (USER_STOPPED_VIEWING ''f'' ''u1'')))
     cached_state ''f'' = Some (''f'', [], 3)"
  by (simp add: snapshot_def cached_heap_def cached_state_def payload_heap_def initialHeap_def
      initialState_def new_array_def new_Map_def new_object_def Map_set_def Map_get_def
      array_push_def array_set_def set_lastUpdated_def set_viewers_def Map_delete_def
      alice_def bob_def)

subsection \<open>The invariant of the viewer lists\<close>

lemma set_keeps_unique:
  assumes "unique_viewers h s" "unique_ids (arrays h vs)"
  shows "unique_viewers (fst (viewingReducer now h s (SET_FILE_VIEWERS fid vs)))
           (snd (viewingReducer now h s (SET_FILE_VIEWERS fid vs)))"
  using assms set_update_subset [of fid "objects_next h" "maps h (fileViewers s)"]
  by (auto simp: unique_viewers_def new_Map_def new_object_def Map_set_def list_all_iff)

lemma clear_keeps_unique:
  assumes "unique_viewers h s"
  shows "unique_viewers (fst (viewingReducer now h s (CLEAR_FILE_VIEWERS fid)))
           (snd (viewingReducer now h s (CLEAR_FILE_VIEWERS fid)))"
  using assms
  by (auto simp: unique_viewers_def new_Map_def Map_delete_def list_all_iff AList.delete_eq)

lemma stopped_keeps_unique:
  assumes "unique_viewers h s"
  shows "unique_viewers (fst (viewingReducer now h s (USER_STOPPED_VIEWING fid uid)))
           (snd (viewingReducer now h s (USER_STOPPED_VIEWING fid uid)))"
proof (cases "map_of (maps h (fileViewers s)) fid")
  case None
  with assms show ?thesis
    by (simp add: unique_viewers_def new_Map_def Map_get_def)
next
  case (Some a)
  then have "(fid, a) \<in> set (maps h (fileViewers s))" by (rule map_of_SomeD)
  with assms have ua: "unique_ids (arrays h (viewers (objects h a)))"
    by (auto simp: unique_viewers_def list_all_iff)
  have uf: "unique_ids (filter (\<lambda>v. id_v v \<noteq> uid) (arrays h (viewers (objects h a))))"
    using ua by (rule unique_ids_filter)
  show ?thesis
    using assms Some uf set_update_subset [of fid a "maps h (fileViewers s)"]
    by (auto simp: unique_viewers_def new_Map_def Map_get_def new_array_def set_viewers_def
        set_lastUpdated_def Map_delete_def Map_set_def list_all_iff AList.delete_eq Let_def)
qed

lemma started_keeps_unique:
  assumes "unique_viewers h s"
  shows "unique_viewers (fst (viewingReducer now h s (USER_STARTED_VIEWING fid w)))
           (snd (viewingReducer now h s (USER_STARTED_VIEWING fid w)))"
proof (cases "map_of (maps h (fileViewers s)) fid")
  case None
  have u: "unique_ids [w]" by (simp add: unique_ids_def)
  show ?thesis
    using assms None u set_update_subset [of fid "objects_next h" "maps h (fileViewers s)"]
    by (auto simp: unique_viewers_def new_Map_def Map_get_def new_array_def new_object_def
        array_push_def set_lastUpdated_def Map_set_def list_all_iff Let_def)
next
  case (Some a)
  then have "(fid, a) \<in> set (maps h (fileViewers s))" by (rule map_of_SomeD)
  with assms have ua: "unique_ids (arrays h (viewers (objects h a)))"
    by (auto simp: unique_viewers_def list_all_iff)
  have ui: "unique_ids (insert_or_replace w (arrays h (viewers (objects h a))))"
    using ua by (rule unique_ids_insert_or_replace)
  show ?thesis
    using assms Some ui set_update_subset [of fid a "maps h (fileViewers s)"]
    by (auto simp: unique_viewers_def new_Map_def Map_get_def array_set_def insert_or_replace_def
        array_push_def set_lastUpdated_def Map_set_def list_all_iff Let_def split: if_splits)
qed

lemma started_result:
  assumes "unique_viewers h s"
  shows "viewers_of (fst (viewingReducer now h s (USER_STARTED_VIEWING fid w)))
           (snd (viewingReducer now h s (USER_STARTED_VIEWING fid w))) fid =
         Some (let vs = (case viewers_of h s fid of None \<Rightarrow> [] | Some vs \<Rightarrow> vs)
               in if id_v w \<in> id_v ` set vs then replace_by_id w vs else vs @ [w])"
proof (cases "map_of (maps h (fileViewers s)) fid")
  case None
  then show ?thesis
    by (simp add: viewers_of_def new_Map_def Map_get_def new_array_def new_object_def
        array_push_def set_lastUpdated_def Map_set_def update_conv' Let_def)
next
  case (Some a)
  then have "(fid, a) \<in> set (maps h (fileViewers s))" by (rule map_of_SomeD)
  with assms have ua: "unique_ids (arrays h (viewers (objects h a)))"
    by (auto simp: unique_viewers_def list_all_iff)
  let ?vs = "arrays h (viewers (objects h a))"
  let ?i = "findIndex (\<lambda>v. id_v v = id_v w) ?vs"
  have abs: "?i = - 1 \<longleftrightarrow> id_v w \<notin> id_v ` set ?vs"
    by (auto simp: findIndex_absent image_iff)
  show ?thesis
  proof (cases "?i = - 1")
    case True
    with abs Some show ?thesis
      by (simp add: viewers_of_def new_Map_def Map_get_def array_push_def set_lastUpdated_def
          Map_set_def update_conv' Let_def)
  next
    case False
    with abs have "id_v w \<in> id_v ` set ?vs" by simp
    with False Some replace_first [OF ua False] show ?thesis
      by (simp add: viewers_of_def new_Map_def Map_get_def array_set_def set_lastUpdated_def
          Map_set_def update_conv' Let_def)
  qed
qed

text \<open>
  Claim C2, as amended: every action keeps the invariant that no cached viewer list holds
  an identity id twice, provided the viewers array of a \<open>SET_FILE_VIEWERS\<close> payload holds
  none twice; and \<open>USER_STARTED_VIEWING\<close> appends the viewer to the list of the file when
  its identity id is absent (starting from the empty list for a file that is not cached)
  and replaces the entry that has its identity id, in place, when it is present.
\<close>

theorem viewingReducer_keeps_unique_viewers:
  assumes "unique_viewers h s" and "payload_unique h a"
  shows "unique_viewers (fst (viewingReducer now h s a)) (snd (viewingReducer now h s a)) \<and>
         (case a of
            USER_STARTED_VIEWING fid w \<Rightarrow>
              viewers_of (fst (viewingReducer now h s a)) (snd (viewingReducer now h s a)) fid =
                Some (let vs = (case viewers_of h s fid of None \<Rightarrow> [] | Some vs \<Rightarrow> vs)
                      in if id_v w \<in> id_v ` set vs then replace_by_id w vs else vs @ [w])
          | _ \<Rightarrow> True)"
proof (cases a)
  case (SET_FILE_VIEWERS fid vs)
  with assms show ?thesis by (simp only: payload_unique_def ViewingAction.case set_keeps_unique)
next
  case (USER_STARTED_VIEWING fid w)
  with assms(1) show ?thesis
    by (simp only: ViewingAction.case started_keeps_unique started_result)
next
  case (USER_STOPPED_VIEWING fid uid)
  with assms(1) show ?thesis by (simp only: ViewingAction.case stopped_keeps_unique)
next
  case (SET_CURRENTLY_VIEWING p)
  with assms(1) show ?thesis by (simp add: unique_viewers_def)
next
  case (CLEAR_FILE_VIEWERS fid)
  with assms(1) show ?thesis by (simp only: ViewingAction.case clear_keeps_unique)
qed

text \<open>
  Witness for C2: in the state that caches \<open>f\<close> with alice, alice starts viewing again
  from another socket; her entry is replaced.
\<close>

theorem viewingReducer_keeps_unique_viewers_witness:
  "unique_viewers cached_heap cached_state \<and>
   payload_unique cached_heap (USER_STARTED_VIEWING ''f'' alice_again) \<and>
   unique_viewers (fst (viewingReducer 2 cached_heap cached_state (USER_STARTED_VIEWING ''f'' alice_again)))
     (snd (viewingReducer 2 cached_heap cached_state (USER_STARTED_VIEWING ''f'' alice_again))) \<and>
   viewers_of (fst (viewingReducer 2 cached_heap cached_state (USER_STARTED_VIEWING ''f'' alice_again)))
     (snd (viewingReducer 2 cached_heap cached_state (USER_STARTED_VIEWING ''f'' alice_again))) ''f''
     = Some [alice_again]"
proof -
  have u: "unique_viewers cached_heap cached_state" by (rule cached_unique)
  have p: "payload_unique cached_heap (USER_STARTED_VIEWING ''f'' alice_again)"
    by (simp add: payload_unique_def)
  have v: "viewers_of cached_heap cached_state ''f'' = Some [alice]"
    by (simp add: viewers_of_def cached_heap_def cached_state_def payload_heap_def initialHeap_def
      initialState_def new_array_def new_Map_def new_object_def Map_set_def Map_get_def)
  from viewingReducer_keeps_unique_viewers [OF u p, of 2] u p v show ?thesis
    by (simp add: replace_by_id_def alice_def alice_again_def)
qed

text \<open>
  Counterexample to C2 as stated: \<open>SET_FILE_VIEWERS\<close> stores the payload as it is, so a
  payload that names alice twice breaks the invariant from the initial state.
\<close>

theorem set_file_viewers_duplicates_counterexample:
  "unique_viewers duplicate_heap initialState \<and>
   \<not> unique_viewers (fst (viewingReducer 1 duplicate_heap initialState (SET_FILE_VIEWERS ''f'' 0)))
       (snd (viewingReducer 1 duplicate_heap initialState (SET_FILE_VIEWERS ''f'' 0)))"
  by (simp add: unique_viewers_def unique_ids_def duplicate_heap_def initialHeap_def
      initialState_def new_array_def new_Map_def new_object_def Map_set_def)

subsection \<open>Well-formed states stay well-formed\<close>

lemma set_delete_subset: "set (AList.delete k al) \<subseteq> set al"
  by (auto simp: AList.delete_eq)

lemma wf_set:
  assumes "wf_state h s" "vs < arrays_next h"
  shows "wf_state (fst (viewingReducer now h s (SET_FILE_VIEWERS fid vs)))
           (snd (viewingReducer now h s (SET_FILE_VIEWERS fid vs)))"
  using assms set_update_subset [of fid "objects_next h" "maps h (fileViewers s)"]
  by (auto simp: wf_state_def new_Map_def new_object_def Map_set_def list_all_iff distinct_update
      less_Suc_eq)

lemma wf_clear:
  assumes "wf_state h s"
  shows "wf_state (fst (viewingReducer now h s (CLEAR_FILE_VIEWERS fid)))
           (snd (viewingReducer now h s (CLEAR_FILE_VIEWERS fid)))"
  using assms set_delete_subset [of fid "maps h (fileViewers s)"]
  by (auto simp: wf_state_def new_Map_def Map_delete_def list_all_iff AList.distinct_delete)

lemma wf_stopped:
  assumes "wf_state h s"
  shows "wf_state (fst (viewingReducer now h s (USER_STOPPED_VIEWING fid uid)))
           (snd (viewingReducer now h s (USER_STOPPED_VIEWING fid uid)))"
proof (cases "map_of (maps h (fileViewers s)) fid")
  case None
  with assms show ?thesis
    by (auto simp: wf_state_def new_Map_def Map_get_def list_all_iff)
next
  case (Some a)
  then have "(fid, a) \<in> set (maps h (fileViewers s))" by (rule map_of_SomeD)
  with assms have "a < objects_next h" by (auto simp: wf_state_def list_all_iff)
  with assms Some set_update_subset [of fid a "maps h (fileViewers s)"]
    set_delete_subset [of fid "maps h (fileViewers s)"] show ?thesis
    by (auto simp: wf_state_def new_Map_def Map_get_def new_array_def set_viewers_def
        set_lastUpdated_def Map_delete_def Map_set_def list_all_iff AList.distinct_delete
        distinct_update Let_def less_Suc_eq)
qed

lemma wf_started:
  assumes "wf_state h s"
  shows "wf_state (fst (viewingReducer now h s (USER_STARTED_VIEWING fid v)))
           (snd (viewingReducer now h s (USER_STARTED_VIEWING fid v)))"
proof (cases "map_of (maps h (fileViewers s)) fid")
  case None
  with assms set_update_subset [of fid "objects_next h" "maps h (fileViewers s)"] show ?thesis
    by (auto simp: wf_state_def new_Map_def Map_get_def new_array_def new_object_def
        array_push_def set_lastUpdated_def Map_set_def list_all_iff distinct_update Let_def
        less_Suc_eq)
next
  case (Some a)
  with assms set_update_subset [of fid a "maps h (fileViewers s)"] show ?thesis
    by (auto simp: wf_state_def new_Map_def Map_get_def array_set_def
        array_push_def set_lastUpdated_def Map_set_def list_all_iff distinct_update Let_def
        dest: map_of_SomeD split: if_splits)
qed

lemma viewingReducer_wf:
  assumes "wf_state h s" and "payload_allocated h a"
  shows "wf_state (fst (viewingReducer now h s a)) (snd (viewingReducer now h s a))"
proof (cases a)
  case (SET_FILE_VIEWERS fid vs)
  with assms show ?thesis by (simp only: payload_allocated_def ViewingAction.case wf_set)
next
  case (USER_STARTED_VIEWING fid v)
  with assms(1) show ?thesis by (simp only: wf_started)
next
  case (USER_STOPPED_VIEWING fid uid)
  with assms(1) show ?thesis by (simp only: wf_stopped)
next
  case (SET_CURRENTLY_VIEWING p)
  with assms(1) show ?thesis by (simp add: wf_state_def)
next
  case (CLEAR_FILE_VIEWERS fid)
  with assms(1) show ?thesis by (simp only: wf_clear)
qed

subsection \<open>Replaying a snapshot\<close>

lemma set_twice_at:
  assumes "wf_state h s"
  shows "snapshot (fst (viewingReducer t2 (fst (viewingReducer t1 h s (SET_FILE_VIEWERS f vs)))
                     (snd (viewingReducer t1 h s (SET_FILE_VIEWERS f vs))) (SET_FILE_VIEWERS f vs)))
                  (snd (viewingReducer t2 (fst (viewingReducer t1 h s (SET_FILE_VIEWERS f vs)))
                     (snd (viewingReducer t1 h s (SET_FILE_VIEWERS f vs))) (SET_FILE_VIEWERS f vs))) f'
        = ((snapshot (fst (viewingReducer t1 h s (SET_FILE_VIEWERS f vs)))
                  (snd (viewingReducer t1 h s (SET_FILE_VIEWERS f vs))))(f \<mapsto> (f, arrays h vs, t2))) f'"
proof (cases "f' = f")
  case True
  then show ?thesis
    by (simp add: snapshot_def new_Map_def Map_get_def new_object_def Map_set_def update_conv')
next
  case False
  show ?thesis
  proof (cases "map_of (maps h (fileViewers s)) f'")
    case None
    with False show ?thesis
      by (simp add: snapshot_def new_Map_def Map_get_def new_object_def Map_set_def update_conv')
  next
    case (Some a)
    then have "(f', a) \<in> set (maps h (fileViewers s))" by (rule map_of_SomeD)
    with assms have "a < objects_next h" by (auto simp: wf_state_def list_all_iff)
    with False Some show ?thesis
      by (simp add: snapshot_def new_Map_def Map_get_def new_object_def Map_set_def update_conv')
  qed
qed

lemma set_once_at:
  "snapshot (fst (viewingReducer t1 h s (SET_FILE_VIEWERS f vs)))
     (snd (viewingReducer t1 h s (SET_FILE_VIEWERS f vs))) f = Some (f, arrays h vs, t1)"
  by (simp add: snapshot_def new_Map_def Map_get_def new_object_def Map_set_def update_conv')

text \<open>
  Claim C7, as amended: applying the same \<open>SET_FILE_VIEWERS\<close> action a second time gives
  a state that reads like the state after the first application, except that the record of
  that file carries the time of the second application as \<open>lastUpdated\<close>; the two states
  read the same when the clock shows the same time at both applications.
\<close>

theorem set_file_viewers_replay:
  assumes "wf_state h s"
  shows "let r1 = viewingReducer t1 h s (SET_FILE_VIEWERS f vs);
             r2 = viewingReducer t2 (fst r1) (snd r1) (SET_FILE_VIEWERS f vs)
         in snapshot (fst r2) (snd r2) = (snapshot (fst r1) (snd r1))(f \<mapsto> (f, arrays h vs, t2)) \<and>
            snapshot (fst r1) (snd r1) f = Some (f, arrays h vs, t1) \<and>
            currentlyViewing (snd r2) = currentlyViewing (snd r1) \<and>
            (t2 = t1 \<longrightarrow> snapshot (fst r2) (snd r2) = snapshot (fst r1) (snd r1))"
proof -
  let ?r1 = "viewingReducer t1 h s (SET_FILE_VIEWERS f vs)"
  let ?r2 = "viewingReducer t2 (fst ?r1) (snd ?r1) (SET_FILE_VIEWERS f vs)"
  have a: "snapshot (fst ?r2) (snd ?r2) = (snapshot (fst ?r1) (snd ?r1))(f \<mapsto> (f, arrays h vs, t2))"
    by (rule ext) (rule set_twice_at [OF assms])
  have b: "snapshot (fst ?r1) (snd ?r1) f = Some (f, arrays h vs, t1)"
    by (rule set_once_at)
  have c: "currentlyViewing (snd ?r2) = currentlyViewing (snd ?r1)"
    by (simp add: new_Map_def new_object_def)
  have d: "t2 = t1 \<longrightarrow> snapshot (fst ?r2) (snd ?r2) = snapshot (fst ?r1) (snd ?r1)"
  proof
    assume "t2 = t1"
    with b have "(snapshot (fst ?r1) (snd ?r1))(f \<mapsto> (f, arrays h vs, t2)) = snapshot (fst ?r1) (snd ?r1)"
      by (simp only: map_upd_triv)
    with a show "snapshot (fst ?r2) (snd ?r2) = snapshot (fst ?r1) (snd ?r1)" by simp
  qed
  from a b c d show ?thesis by (simp only: Let_def simp_thms)
qed

text \<open>
  Witness for C7: the snapshot \<open>[alice]\<close> for file \<open>f\<close>, applied to the initial state at
  time 1 and again at time 2.
\<close>

theorem set_file_viewers_replay_witness:
  "wf_state payload_heap initialState \<and>
   snapshot (fst (viewingReducer 1 payload_heap initialState (SET_FILE_VIEWERS ''f'' 0)))
     (snd (viewingReducer 1 payload_heap initialState (SET_FILE_VIEWERS ''f'' 0))) ''f''
     = Some (''f'', [alice], 1) \<and>
   snapshot (fst (viewingReducer 2 cached_heap cached_state (SET_FILE_VIEWERS ''f'' 0)))
     (snd (viewingReducer 2 cached_heap cached_state (SET_FILE_VIEWERS ''f'' 0))) ''f''
     = Some (''f'', [alice], 2)"
proof -
  have w: "wf_state payload_heap initialState"
    by (simp add: wf_state_def payload_heap_def initialHeap_def initialState_def new_array_def)
  have p: "arrays payload_heap 0 = [alice]"
    by (simp add: payload_heap_def initialHeap_def new_array_def)
  from set_file_viewers_replay [OF w, of 1 "''f''" 0 2] w p show ?thesis
    by (simp add: Let_def cached_heap_def cached_state_def)
qed

text \<open>
  Counterexample to C7 as stated: after the second application, at time 2, the record of
  \<open>f\<close> differs from the one after the first application, at time 1.
\<close>

theorem set_file_viewers_replay_counterexample:
  "snapshot (fst (viewingReducer 2 cached_heap cached_state (SET_FILE_VIEWERS ''f'' 0)))
     (snd (viewingReducer 2 cached_heap cached_state (SET_FILE_VIEWERS ''f'' 0))) ''f''
   \<noteq> snapshot cached_heap cached_state ''f''"
  by (simp add: snapshot_def cached_heap_def cached_state_def payload_heap_def initialHeap_def
      initialState_def new_array_def new_Map_def new_object_def Map_set_def Map_get_def)

section \<open>Properties of the listener registry\<close>








lemma called_append: "called (xs @ ys) = called xs @ called ys"
  by (induction xs rule: called.induct) simp_all

lemma listener_errors_append: "listener_errors (xs @ ys) = listener_errors xs @ listener_errors ys"
  by (induction xs rule: listener_errors.induct) simp_all

lemma called_forEach: "called (forEach_callbacks thr event d cbs i) = map (\<lambda>cb. (cb, d)) cbs"
  by (induction cbs arbitrary: i) (simp_all add: called_append)


lemma triggerEvent_trace:
  "triggerEvent thr event d w =
     w\<lparr>trace := trace w @
        (if registered (service w) event = []
         then [Console_warn (''No listeners found for event '' @ event)]
         else forEach_callbacks thr event d (registered (service w) event) 0)\<rparr>"
  by (simp add: triggerEvent_def registered_def log_def split: option.splits)

lemma called_triggerEvent:
  "called (trace (triggerEvent thr event d w)) =
     called (trace w) @ map (\<lambda>cb. (cb, d)) (registered (service w) event)"
  by (simp add: triggerEvent_trace called_append called_forEach)





text \<open>
  Claim C6: when the socket is missing or reports not connected, \<open>startViewingFile\<close>,
  \<open>stopViewingFile\<close> and \<open>emit\<close> only write a warning: nothing is handed to a socket,
  no timer is set, and the service's fields are unchanged.
\<close>

theorem not_connected_actions_dropped:
  assumes "\<not> socket_connected w"
  shows "startViewingFile fid w =
           w\<lparr>trace := trace w @ [Console_warn ''Cannot start viewing file - socket not connected'']\<rparr> \<and>
         stopViewingFile fid w =
           w\<lparr>trace := trace w @ [Console_warn ''Cannot stop viewing file - socket not connected'']\<rparr> \<and>
         emit event d w =
           w\<lparr>trace := trace w @ [Console_warn (''Socket not connected, cannot emit event: '' @ event)]\<rparr> \<and>
         service (startViewingFile fid w) = service w \<and> sockets (startViewingFile fid w) = sockets w \<and>
         timers (startViewingFile fid w) = timers w \<and>
         service (stopViewingFile fid w) = service w \<and> sockets (stopViewingFile fid w) = sockets w \<and>
         timers (stopViewingFile fid w) = timers w \<and>
         service (emit event d w) = service w \<and> sockets (emit event d w) = sockets w \<and>
         timers (emit event d w) = timers w"
  using assms by (simp add: startViewingFile_def stopViewingFile_def emit_def log_def)

text \<open>
  Witness for C6: right after \<open>connect\<close> the socket is not yet connected; \<open>startViewingFile\<close> sends nothing.
\<close>

theorem not_connected_actions_dropped_witness:
  "\<not> socket_connected (connect False ''t'' initialWorld) \<and>
   emitted (sockets (startViewingFile ''f'' (connect False ''t'' initialWorld)) 0) = [] \<and>
   trace (startViewingFile ''f'' (connect False ''t'' initialWorld)) =
     [Console_warn ''Cannot start viewing file - socket not connected'']"
proof -
  have n: "\<not> socket_connected (connect False ''t'' initialWorld)"
    by (simp add: socket_connected_def connect_def initialWorld_def io_def setupEventListeners_def
        socket_on_def lifecycle_handlers_def wire_handlers_def)
  have e: "emitted (sockets (connect False ''t'' initialWorld) 0) = []"
    by (simp add: socket_connected_def connect_def initialWorld_def io_def setupEventListeners_def
        socket_on_def lifecycle_handlers_def wire_handlers_def)
  have t: "trace (connect False ''t'' initialWorld) = []"
    by (simp add: socket_connected_def connect_def initialWorld_def io_def setupEventListeners_def
        socket_on_def lifecycle_handlers_def wire_handlers_def)
  from not_connected_actions_dropped [OF n, of "''f''"] n e t show ?thesis by simp
qed

section \<open>Properties of connect, disconnect and forceReconnect\<close>

lemma setupEventListeners_eq:
  "setupEventListeners w =
     (case socket (service w) of
        None \<Rightarrow> w
      | Some a \<Rightarrow> w\<lparr>sockets := (sockets w)(a := (sockets w a)\<lparr>handlers := handlers (sockets w a) @ wire_handlers\<rparr>)\<rparr>)"
  by (simp add: setupEventListeners_def wire_handlers_def socket_on_def split: option.splits)

lemma connect_opens:
  assumes "\<not> isConnecting (service w)" "\<not> socket_connected w"
  shows "connect False token w =
     w\<lparr>service := (service w)\<lparr>isConnecting := True, socket := Some (sockets_next w)\<rparr>,
       sockets := (sockets w)(sockets_next w :=
          \<lparr>connected = False, handlers = lifecycle_handlers @ wire_handlers, emitted = [],
           closed = False, auth_token = token\<rparr>),
       sockets_next := Suc (sockets_next w)\<rparr>"
  using assms
  by (simp add: connect_def io_def setupEventListeners_eq lifecycle_handlers_def socket_on_def Let_def)

lemma connect_noop:
  "isConnecting (service w) \<or> socket_connected w \<Longrightarrow> connect io_throws token w = w"
  by (simp add: connect_def)

lemma disconnect_Some:
  assumes "socket (service w) = Some a"
  shows "disconnect w =
     w\<lparr>service := (service w)\<lparr>isConnected := False, isConnecting := False, socket := None,
                             listeners := []\<rparr>,
       sockets := (sockets w)(a := (sockets w a)\<lparr>handlers := [], connected := False, closed := True\<rparr>)\<rparr>"
  using assms
  by (simp add: disconnect_def socket_removeAllListeners_def socket_disconnect_def Let_def)

lemma connect_False_frame:
  "connectionAttempts (service (connect False token w)) = connectionAttempts (service w) \<and>
   listeners (service (connect False token w)) = listeners (service w) \<and>
   timers (connect False token w) = timers w \<and> trace (connect False token w) = trace w"
proof (cases "isConnecting (service w) \<or> socket_connected w")
  case True
  then show ?thesis by (simp add: connect_noop)
next
  case False
  then show ?thesis by (simp add: connect_opens)
qed

lemma connect_listeners: "listeners (service (connect io_throws token w)) = listeners (service w)"
proof (cases io_throws)
  case True
  then show ?thesis by (simp add: connect_def log_def)
next
  case False
  then show ?thesis by (simp add: connect_False_frame)
qed

lemmas world_eval =
  connect_def io_def setupEventListeners_eq reregisterListeners_def lifecycle_handlers_def
  wire_handlers_def socket_on_def socket_emit_def Let_def initialWorld_def socket_connected_def
  transport_def fire_def handlers_for_def set_connected_def log_def maxReconnectAttempts_def
  forceReconnect_def disconnect_def socket_removeAllListeners_def socket_disconnect_def
  timer_fires_def triggerEvent_def getOnlineUsers_def never_throws_def





lemma called_connect: "called (trace (connect io_throws token w)) = called (trace w)"
proof (cases io_throws)
  case True
  then show ?thesis by (simp add: connect_def log_def called_append)
next
  case False
  then show ?thesis by (simp add: connect_False_frame)
qed

lemma stopViewingFile_service: "service (stopViewingFile fid w) = service w"
  by (simp add: stopViewingFile_def socket_emit_def log_def split: option.splits)

text \<open>
  Claim C9, as amended: when the service holds a socket, \<open>disconnect\<close> clears all listener
  registrations, removes the socket's handlers and closes it, so after a following
  \<open>connect\<close> no earlier subscription is left and a dispatch calls no callback; the cleanup
  of the provider does the same and dispatches no action, so the reducer's state is as
  before.
\<close>

theorem disconnect_clears_listeners:
  assumes "socket (service w) = Some a"
  shows "listeners (service (disconnect w)) = [] \<and> socket (service (disconnect w)) = None \<and>
         handlers (sockets (disconnect w) a) = [] \<and> closed (sockets (disconnect w) a) \<and>
         listeners (service (connect io_throws token (disconnect w))) = [] \<and>
         called (trace (triggerEvent thr event d (connect io_throws token (disconnect w)))) =
           called (trace w) \<and>
         listeners (service (snd (ViewingProvider_cleanup st w))) = [] \<and>
         fst (ViewingProvider_cleanup st w) = [] \<and>
         dispatch_all now h st (fst (ViewingProvider_cleanup st w)) = (h, st)"
proof -
  have a: "listeners (service (disconnect w)) = []" "socket (service (disconnect w)) = None"
    "handlers (sockets (disconnect w) a) = []" "closed (sockets (disconnect w) a)"
    "trace (disconnect w) = trace w"
    using assms by (simp_all add: disconnect_Some)
  have b: "listeners (service (connect io_throws token (disconnect w))) = []"
    by (simp add: connect_listeners a)
  then have "registered (service (connect io_throws token (disconnect w))) event = []"
    by (simp add: registered_def)
  then have c: "called (trace (triggerEvent thr event d (connect io_throws token (disconnect w)))) =
           called (trace w)"
    by (simp add: called_triggerEvent called_connect a)
  have "\<And>w'. service w' = service w \<Longrightarrow> listeners (service (disconnect w')) = []"
    using assms by (simp add: disconnect_def Let_def)
  then have e: "listeners (service (snd (ViewingProvider_cleanup st w))) = []"
    by (simp add: ViewingProvider_cleanup_def stopViewingFile_service split: option.splits)
  have f: "fst (ViewingProvider_cleanup st w) = []"
    by (simp add: ViewingProvider_cleanup_def)
  from a b c e f show ?thesis by simp
qed

text \<open>
  Witness for C9: a connected client with one subscription.
\<close>

theorem disconnect_clears_listeners_witness:
  "socket (service subscribed_world) = Some 0 \<and>
   registered (service subscribed_world) ''e'' = [7] \<and>
   registered (service (disconnect subscribed_world)) ''e'' = [] \<and>
   registered (service (connect False ''t'' (disconnect subscribed_world))) ''e'' = []"
proof -
  have s: "socket (service subscribed_world) = Some 0"
    by (simp add: subscribed_world_def connected_world_def on_def world_eval)
  have r: "registered (service subscribed_world) ''e'' = [7]"
    by (simp add: subscribed_world_def connected_world_def on_def registered_def world_eval)
  from disconnect_clears_listeners [OF s, of False "''t''"] s r show ?thesis
    by (simp add: registered_def)
qed

text \<open>
  Counterexample to C9 as stated: without a socket \<open>disconnect\<close> leaves a registered listener in place; and after the cleanup of the provider the cached viewers of file \<open>f\<close> are still in the reducer state.
\<close>

theorem teardown_keeps_state_counterexample:
  "registered (service (disconnect early_listener)) ''e'' = [7] \<and>
   snapshot
     (fst (dispatch_all 9 cached_heap cached_state (fst (ViewingProvider_cleanup cached_state connected_world))))
     (snd (dispatch_all 9 cached_heap cached_state (fst (ViewingProvider_cleanup cached_state connected_world))))
     ''f'' = Some (''f'', [alice], 1)"
  by (simp add: early_listener_def on_def registered_def disconnect_def initialWorld_def
      ViewingProvider_cleanup_def cached_snapshot)

section \<open>One session at a time\<close>




























section \<open>Properties of the transport handlers\<close>




























end
